theory Spec2Isabelle
  imports Complex_Main "HOL-Library.Log_Nat"
begin

section \<open>JavaScript numbers\<close>

text \<open>
  A JavaScript Number is an IEEE 754 double: a finite value, which is a rational number,
  or one of the three non-finite values. \<open>Finite r\<close> is the double whose value is \<open>r\<close>;
  a quantity such as 1.5 is \<open>Finite (3 / 2)\<close>. The two zeros are one value here: a negative
  zero behaves as zero in every operation the oracle applies to a Number (it is finite,
  it is \<open><= 0\<close>, and it is never the result of an operation on the positive values that
  pass the quantity check).
\<close>

datatype jsnum = Finite rat | PosInfinity | NegInfinity | NaN

text \<open>
  Rounding to the nearest double, ties to the even significand. \<open>binade x\<close> is the
  exponent \<open>e\<close> with \<open>2 ^ e \<le> x < 2 ^ (e + 1)\<close>; around \<open>x\<close> the doubles are the multiples of
  \<open>2 ^ (e - 52)\<close>, and of \<open>2 ^ (- 1074)\<close> below the smallest normal double, so a positive
  \<open>x\<close> rounds to the nearest such multiple. A result of \<open>2 ^ 1024\<close> or more is an
  overflow and becomes an infinity.
\<close>

definition roundHalfEven :: "rat \<Rightarrow> int" where
  "roundHalfEven t =
     (let f = \<lfloor>t\<rfloor>; d = t - of_int f in
      if d < 1 / 2 then f else if 1 / 2 < d then f + 1 else if even f then f else f + 1)"

definition binade :: "rat \<Rightarrow> int" where
  "binade x =
     (case quotient_of x of (p, q) \<Rightarrow>
        let d = bitlen p - bitlen q in if 2 powi d \<le> x then d else d - 1)"

definition roundPos :: "rat \<Rightarrow> rat" where
  "roundPos x =
     (let k = max (binade x) (- 1022) - 52
      in of_int (roundHalfEven (x / 2 powi k)) * 2 powi k)"

definition toDouble :: "rat \<Rightarrow> jsnum" where
  "toDouble x =
     (if x = 0 then Finite 0
      else let y = roundPos \<bar>x\<bar> in
        if 2 ^ 1024 \<le> y then (if 0 < x then PosInfinity else NegInfinity)
        else Finite (if 0 < x then y else - y))"

fun isFinite :: "jsnum \<Rightarrow> bool" where
  "isFinite (Finite r) = True"
| "isFinite PosInfinity = False"
| "isFinite NegInfinity = False"
| "isFinite NaN = False"

text \<open>\<open>x <= 0\<close>: every comparison with \<open>NaN\<close> is false.\<close>

fun leZero :: "jsnum \<Rightarrow> bool" where
  "leZero (Finite r) = (r \<le> 0)"
| "leZero PosInfinity = False"
| "leZero NegInfinity = True"
| "leZero NaN = False"

text \<open>\<open>x <= y\<close>.\<close>

fun le_js :: "jsnum \<Rightarrow> jsnum \<Rightarrow> bool" where
  "le_js NaN y = False"
| "le_js x NaN = False"
| "le_js NegInfinity y = True"
| "le_js x PosInfinity = True"
| "le_js (Finite a) (Finite b) = (a \<le> b)"
| "le_js (Finite a) NegInfinity = False"
| "le_js PosInfinity (Finite b) = False"
| "le_js PosInfinity NegInfinity = False"

text \<open>\<open>x * y\<close>: the exact product, rounded; an infinity times zero is \<open>NaN\<close>.\<close>

fun infTimes :: "bool \<Rightarrow> rat \<Rightarrow> jsnum" where
  "infTimes positive r =
     (if r = 0 then NaN else if (0 < r) = positive then PosInfinity else NegInfinity)"

fun times_js :: "jsnum \<Rightarrow> jsnum \<Rightarrow> jsnum" where
  "times_js NaN y = NaN"
| "times_js x NaN = NaN"
| "times_js (Finite a) (Finite b) = toDouble (a * b)"
| "times_js (Finite a) PosInfinity = infTimes True a"
| "times_js (Finite a) NegInfinity = infTimes False a"
| "times_js PosInfinity (Finite b) = infTimes True b"
| "times_js NegInfinity (Finite b) = infTimes False b"
| "times_js PosInfinity PosInfinity = PosInfinity"
| "times_js NegInfinity NegInfinity = PosInfinity"
| "times_js PosInfinity NegInfinity = NegInfinity"
| "times_js NegInfinity PosInfinity = NegInfinity"

text \<open>\<open>x + y\<close>: the exact sum, rounded; opposite infinities add to \<open>NaN\<close>.\<close>

fun plus_js :: "jsnum \<Rightarrow> jsnum \<Rightarrow> jsnum" where
  "plus_js NaN y = NaN"
| "plus_js x NaN = NaN"
| "plus_js (Finite a) (Finite b) = toDouble (a + b)"
| "plus_js PosInfinity NegInfinity = NaN"
| "plus_js NegInfinity PosInfinity = NaN"
| "plus_js PosInfinity y = PosInfinity"
| "plus_js x PosInfinity = PosInfinity"
| "plus_js NegInfinity y = NegInfinity"
| "plus_js x NegInfinity = NegInfinity"

text \<open>\<open>Number(x)\<close> of a BigInt: the nearest double.\<close>

definition NumberOfBigInt :: "int \<Rightarrow> jsnum" where
  "NumberOfBigInt n = toDouble (of_int n)"

text \<open>\<open>BigInt(x)\<close> of a Number: a \<open>RangeError\<close> unless \<open>x\<close> is an integer.\<close>

datatype error = Error string | RangeError

fun BigInt :: "jsnum \<Rightarrow> error + int" where
  "BigInt (Finite r) = (if of_int \<lfloor>r\<rfloor> = r then Inr \<lfloor>r\<rfloor> else Inl RangeError)"
| "BigInt PosInfinity = Inl RangeError"
| "BigInt NegInfinity = Inl RangeError"
| "BigInt NaN = Inl RangeError"

section \<open>Other JavaScript values used by ravenOracle.js\<close>

text \<open>
  An integer read from the contract is either a Number or a BigInt. The two are
  different types to the strict equality \<open>===\<close>. The plan id is a \<open>uint8\<close>, far inside the
  range where \<open>Number(x)\<close> is exact, and is only ever compared with 0.
\<close>

datatype jsint = JSNumber int | JSBigInt int

fun toNumber :: "jsint \<Rightarrow> int" where
  "toNumber (JSNumber n) = n"
| "toNumber (JSBigInt n) = n"

text \<open>\<open>x === n\<close> for a Number literal \<open>n\<close>: a BigInt is never strictly equal to a Number.\<close>

fun strictEqNumber :: "jsint \<Rightarrow> int \<Rightarrow> bool" where
  "strictEqNumber (JSNumber v) n = (v = n)"
| "strictEqNumber (JSBigInt v) n = False"

text \<open>
  The result of a property read \<open>obj[key]\<close> on an object literal whose own properties
  are numbers: the own number, a member inherited from \<open>Object.prototype\<close> (a function,
  or the prototype object itself for \<open>__proto__\<close>), or \<open>undefined\<close>.
\<close>

datatype jsval = Undefined | Num int | Inherited

fun truthy :: "jsval \<Rightarrow> bool" where
  "truthy Undefined = False"
| "truthy (Num n) = (n \<noteq> 0)"
| "truthy Inherited = True"

text \<open>\<open>ToNumber\<close>, applied by \<open>*\<close> to its operands: \<open>undefined\<close>, functions and plain
  objects all convert to \<open>NaN\<close>.\<close>

fun ToNumber :: "jsval \<Rightarrow> jsnum" where
  "ToNumber Undefined = NaN"
| "ToNumber (Num n) = Finite (of_int n)"
| "ToNumber Inherited = NaN"

section \<open>The RavenOracle object\<close>





definition GLOBAL_PRICE_ACCURACY_CAP :: int where
  "GLOBAL_PRICE_ACCURACY_CAP = 3000"

definition RATE_LIMIT_PER_MINUTE :: nat where
  "RATE_LIMIT_PER_MINUTE = 30"

text \<open>The property names every object literal inherits from \<open>Object.prototype\<close>.\<close>

definition objectPrototypeKeys :: "string list" where
  "objectPrototypeKeys =
     [''constructor'', ''hasOwnProperty'', ''isPrototypeOf'', ''propertyIsEnumerable'',
      ''toLocaleString'', ''toString'', ''valueOf'', ''__proto__'',
      ''__defineGetter__'', ''__defineSetter__'', ''__lookupGetter__'', ''__lookupSetter__'']"

text \<open>\<open>this.COSTS[m]\<close>: the four own entries, then the prototype chain.\<close>

definition COSTS :: "string \<Rightarrow> jsval" where
  "COSTS m =
     (if m = ''basic'' then Num 1
      else if m = ''tags'' then Num 2
      else if m = ''price_accuracy'' then Num 4
      else if m = ''full'' then Num 6
      else if m \<in> set objectPrototypeKeys then Inherited
      else Undefined)"

text \<open>
  The mutable members \<open>_rateLimiter\<close> (a Map from user to an array of millisecond
  timestamps) and \<open>_grantedInitial\<close> (a Set of users). The field \<open>calls\<close> is not in the
  source: it records, in order, every call made on the \<open>ravenAccess\<close> contract, so that
  "no external read" can be stated.
\<close>

datatype call =
    Call_getUserSubscription string
  | Call_plans jsint
  | Call_getUserCredits string

record ravenOracle =
  rateLimiter :: "string \<rightharpoonup> int list"
  grantedInitial :: "string set"
  calls :: "call list"

text \<open>The state the constructor leaves.\<close>

definition newOracle :: ravenOracle where
  "newOracle = \<lparr>rateLimiter = Map.empty, grantedInitial = {}, calls = []\<rparr>"

section \<open>The contract as read through ethers\<close>

text \<open>
  The view functions of the ABI in \<open>getAccessABI\<close>. A call that rejects (and so throws at
  its \<open>await\<close>) is \<open>None\<close>. The source uses the version 6 interface of ethers
  (\<open>ethers.JsonRpcProvider\<close>, \<open>ethers.isAddress\<close>, a BigInt serializer in the server),
  which decodes every Solidity integer, the \<open>uint8 planId\<close> included, as a BigInt; the
  representation of the plan id is kept as data (\<open>jsint\<close>), so that both readings can be
  evaluated. The other integers are only ever read through \<open>Number(...)\<close> or \<open>BigInt(...)\<close>
  and are modelled by their values.
\<close>

record subscriptionView =
  res_planId :: jsint
  res_startTs :: int
  res_usedThisWindow :: int
  res_lastRenewedAt :: int
  res_planMonthlyCap :: int
  res_planPriceUnits :: int

record planView =
  fullPlan_priceUnits :: int
  fullPlan_monthlyCap :: int
  fullPlan_active :: bool

record contract =
  view_getUserSubscription :: "string \<Rightarrow> subscriptionView option"
  view_plans :: "jsint \<Rightarrow> planView option"
  view_getUserCredits :: "string \<Rightarrow> int option"

record plan =
  priceUnits :: int
  monthlyCap :: int
  active :: bool

record subscription =
  planId :: jsint
  startTimestamp :: int
  usedThisWindow :: int
  lastRenewedAt :: int
  plan :: plan

definition subscriptionObject :: "subscriptionView \<Rightarrow> bool \<Rightarrow> subscription" where
  "subscriptionObject res act =
     \<lparr>planId = res_planId res,
      startTimestamp = res_startTs res,
      usedThisWindow = res_usedThisWindow res,
      lastRenewedAt = res_lastRenewedAt res,
      plan = \<lparr>priceUnits = res_planPriceUnits res,
              monthlyCap = res_planMonthlyCap res,
              active = act\<rparr>\<rparr>"

text \<open>
  \<open>getUserSubscription\<close>: one view call, a second one for the \<open>active\<close> flag when the
  plan id is positive; the whole body is in a \<open>try\<close> whose \<open>catch\<close> returns \<open>null\<close>.
\<close>

definition getUserSubscription ::
    "contract \<Rightarrow> ravenOracle \<Rightarrow> string \<Rightarrow> subscription option \<times> ravenOracle" where
  "getUserSubscription c st userAddress =
     (let st1 = st\<lparr>calls := calls st @ [Call_getUserSubscription userAddress]\<rparr> in
      case view_getUserSubscription c userAddress of
        None \<Rightarrow> (None, st1)
      | Some res \<Rightarrow>
          if 0 < toNumber (res_planId res) then
            (let st2 = st1\<lparr>calls := calls st1 @ [Call_plans (res_planId res)]\<rparr> in
             case view_plans c (res_planId res) of
               None \<Rightarrow> (None, st2)
             | Some fullPlan \<Rightarrow> (Some (subscriptionObject res (fullPlan_active fullPlan)), st2))
          else (Some (subscriptionObject res False), st1))"

text \<open>
  \<open>getUserCredits\<close> returns the balance as a decimal string, \<open>'0'\<close> from its \<open>catch\<close>;
  the only caller modelled here reads it back with \<open>BigInt\<close>, so the model returns the
  number the string denotes.
\<close>

definition getUserCredits :: "contract \<Rightarrow> ravenOracle \<Rightarrow> string \<Rightarrow> int \<times> ravenOracle" where
  "getUserCredits c st userAddress =
     (let st1 = st\<lparr>calls := calls st @ [Call_getUserCredits userAddress]\<rparr> in
      case view_getUserCredits c userAddress of
        None \<Rightarrow> (0, st1)
      | Some credits \<Rightarrow> (credits, st1))"

section \<open>Cost of an inference\<close>

text \<open>
  \<open>getInferenceCost\<close>. The mode arrives as a string (a JSON string of the request body),
  on which \<open>String(mode)\<close> is the identity. The two \<open>throw\<close> statements keep their order
  and their messages.
\<close>

definition getInferenceCost :: "string \<Rightarrow> jsnum \<Rightarrow> error + jsnum" where
  "getInferenceCost mode quantity =
     (let m = mode;
          unit = COSTS m in
      if \<not> truthy unit then Inl (Error ''Unknown mode'')
      else if \<not> isFinite quantity \<or> leZero quantity then Inl (Error ''quantity must be > 0'')
      else Inr (times_js (ToNumber unit) quantity))"

section \<open>The sliding-window rate limiter\<close>

definition windowMs :: int where
  "windowMs = 60 * 1000"

text \<open>The local \<open>recent\<close> of \<open>isRateLimited\<close>: the stored timestamps still in the window.\<close>

definition recent :: "ravenOracle \<Rightarrow> int \<Rightarrow> string \<Rightarrow> int list" where
  "recent st now userAddress =
     filter (\<lambda>t. now - t \<le> windowMs)
       (case rateLimiter st userAddress of None \<Rightarrow> [] | Some arr \<Rightarrow> arr)"

text \<open>
  \<open>isRateLimited\<close>, with the value of \<open>Date.now()\<close> as a parameter. Timestamps are whole
  milliseconds, far below \<open>2 ^ 53\<close>, where the subtraction and the comparison of doubles are
  those of integers.
\<close>

definition isRateLimited :: "ravenOracle \<Rightarrow> int \<Rightarrow> string \<Rightarrow> bool \<times> ravenOracle" where
  "isRateLimited st now userAddress =
     (let r = recent st now userAddress;
          limited = (RATE_LIMIT_PER_MINUTE \<le> length r)
      in (limited, st\<lparr>rateLimiter := (rateLimiter st)(userAddress \<mapsto> r @ [now])\<rparr>))"

section \<open>Credits earned by an action\<close>


section \<open>The authorization decision\<close>

datatype billingMethod = Subscription | Credits | InitialGrant | Deny

record decision =
  allowed :: bool
  method' :: billingMethod
  reason :: string
  cost :: jsnum

text \<open>The condition of step 3:
  \<open>!this._grantedInitial.has(userAddress) && credits === 0n &&
   (!subscription || subscription.planId === 0)\<close>.\<close>

definition initialGrantCondition ::
    "ravenOracle \<Rightarrow> string \<Rightarrow> int \<Rightarrow> subscription option \<Rightarrow> bool" where
  "initialGrantCondition st userAddress credits sub =
     (userAddress \<notin> grantedInitial st \<and> credits = 0 \<and>
      (case sub of None \<Rightarrow> True | Some s \<Rightarrow> strictEqNumber (planId s) 0))"

text \<open>The local \<open>isSubscribed\<close>:
  \<open>!!subscription && Number(subscription.planId) > 0 && subscription.plan.active\<close>.\<close>

definition isSubscribed :: "subscription option \<Rightarrow> bool" where
  "isSubscribed sub =
     (case sub of None \<Rightarrow> False | Some s \<Rightarrow> 0 < toNumber (planId s) \<and> active (plan s))"

definition isPriceAccuracyMode :: "string \<Rightarrow> bool" where
  "isPriceAccuracyMode mode = (mode = ''price_accuracy'' \<or> mode = ''full'')"

text \<open>
  The body shared by steps 4 and 6, entered when \<open>isSubscribed\<close> holds: the cap and the
  usage counter are converted with \<open>Number(...)\<close>, and the sum and the comparison are those
  of doubles.
\<close>

definition withinCap :: "subscription \<Rightarrow> string \<Rightarrow> jsnum \<Rightarrow> bool" where
  "withinCap s mode quantity =
     (let planCap = NumberOfBigInt (monthlyCap (plan s));
          used = NumberOfBigInt (usedThisWindow s);
          effectiveCap = (if isPriceAccuracyMode mode
                          then Finite (of_int GLOBAL_PRICE_ACCURACY_CAP) else planCap)
      in le_js (plus_js used quantity) effectiveCap)"

definition subscribedWithinCap :: "subscription option \<Rightarrow> string \<Rightarrow> jsnum \<Rightarrow> bool" where
  "subscribedWithinCap sub mode quantity =
     (case sub of None \<Rightarrow> False | Some s \<Rightarrow> isSubscribed sub \<and> withinCap s mode quantity)"

text \<open>\<open>authorizeInference\<close>, statement by statement; a thrown error is \<open>Inl\<close>.\<close>

definition authorizeInference ::
    "contract \<Rightarrow> ravenOracle \<Rightarrow> int \<Rightarrow> string \<Rightarrow> string \<Rightarrow> jsnum \<Rightarrow> (error + decision) \<times> ravenOracle" where
  "authorizeInference c st now userAddress mode quantity =
     (case isRateLimited st now userAddress of
        (True, st1) \<Rightarrow>
          (Inr \<lparr>allowed = False, method' = Deny, reason = ''rate_limited'', cost = Finite 0\<rparr>, st1)
      | (False, st1) \<Rightarrow>
         (case getUserSubscription c st1 userAddress of (sub, st2) \<Rightarrow>
          case getUserCredits c st2 userAddress of (credits, st3) \<Rightarrow>
            if initialGrantCondition st3 userAddress credits sub then
              (Inr \<lparr>allowed = True, method' = InitialGrant, reason = ''initial_50_credits'',
                    cost = Finite 0\<rparr>, st3)
            else
              (case getInferenceCost mode quantity of
                 Inl e \<Rightarrow> (Inl e, st3)
               | Inr cst \<Rightarrow>
                   if subscribedWithinCap sub mode quantity then
                     (Inr \<lparr>allowed = True, method' = Subscription,
                           reason = ''within_subscription_cap'', cost = Finite 0\<rparr>, st3)
                   else
                     (case BigInt cst of
                        Inl e \<Rightarrow> (Inl e, st3)
                      | Inr bigCost \<Rightarrow>
                          if bigCost \<le> credits then
                            (Inr \<lparr>allowed = True, method' = Credits,
                                  reason = ''sufficient_credits'', cost = cst\<rparr>, st3)
                          else if subscribedWithinCap sub mode quantity then
                            (Inr \<lparr>allowed = True, method' = Subscription,
                                  reason = ''fallback_subscription'', cost = Finite 0\<rparr>, st3)
                          else
                            (Inr \<lparr>allowed = False, method' = Deny,
                                  reason = ''insufficient_balance_and_cap'', cost = cst\<rparr>, st3)))))"

section \<open>Example ledgers\<close>

text \<open>
  A contract that answers every user alike: a subscription record with the given plan id,
  usage and cap, a plan with the given \<open>active\<close> flag, and the given credit balance.
\<close>

definition ledger :: "jsint \<Rightarrow> int \<Rightarrow> int \<Rightarrow> bool \<Rightarrow> int \<Rightarrow> contract" where
  "ledger pid used cap act credits =
     \<lparr>view_getUserSubscription = (\<lambda>u. Some
         \<lparr>res_planId = pid, res_startTs = 0, res_usedThisWindow = used,
          res_lastRenewedAt = 0, res_planMonthlyCap = cap, res_planPriceUnits = 0\<rparr>),
      view_plans = (\<lambda>p. Some
         \<lparr>fullPlan_priceUnits = 0, fullPlan_monthlyCap = cap, fullPlan_active = act\<rparr>),
      view_getUserCredits = (\<lambda>u. Some credits)\<rparr>"

text \<open>A contract none of whose calls succeeds (the node is unreachable).\<close>

definition unreachable :: contract where
  "unreachable =
     \<lparr>view_getUserSubscription = (\<lambda>u. None), view_plans = (\<lambda>p. None),
      view_getUserCredits = (\<lambda>u. None)\<rparr>"

text \<open>A contract whose subscription read fails while the credit read succeeds.\<close>

definition subscriptionDown :: "int \<Rightarrow> contract" where
  "subscriptionDown credits =
     \<lparr>view_getUserSubscription = (\<lambda>u. None), view_plans = (\<lambda>p. None),
      view_getUserCredits = (\<lambda>u. Some credits)\<rparr>"

text \<open>An oracle whose rate limiter holds \<open>n\<close> requests of \<open>user\<close>, all at time \<open>t\<close>.\<close>

definition burst :: "string \<Rightarrow> nat \<Rightarrow> int \<Rightarrow> ravenOracle" where
  "burst user n t = newOracle\<lparr>rateLimiter := [user \<mapsto> replicate n t]\<rparr>"

section \<open>Rounding to doubles\<close>

lemma roundHalfEven_of_int [simp]: "roundHalfEven (of_int n) = n"
  by (simp add: roundHalfEven_def)

lemma roundHalfEven_bounds: "\<lfloor>t\<rfloor> \<le> roundHalfEven t \<and> roundHalfEven t \<le> \<lfloor>t\<rfloor> + 1"
  by (simp add: roundHalfEven_def Let_def)

lemma roundHalfEven_mono:
  assumes "s \<le> t"
  shows "roundHalfEven s \<le> roundHalfEven t"
proof (cases "\<lfloor>s\<rfloor> = \<lfloor>t\<rfloor>")
  case True
  then have "s - of_int \<lfloor>s\<rfloor> \<le> t - of_int \<lfloor>t\<rfloor>"
    using assms by simp
  then show ?thesis
    using True by (auto simp: roundHalfEven_def Let_def)
next
  case False
  then have "\<lfloor>s\<rfloor> + 1 \<le> \<lfloor>t\<rfloor>"
    using assms floor_mono [of s t] by linarith
  then show ?thesis
    using roundHalfEven_bounds [of s] roundHalfEven_bounds [of t] by linarith
qed

lemma roundHalfEven_ge: "of_int n \<le> t \<Longrightarrow> n \<le> roundHalfEven t"
  using roundHalfEven_mono [of "of_int n" t] by simp

lemma roundHalfEven_le: "t \<le> of_int n \<Longrightarrow> roundHalfEven t \<le> n"
  using roundHalfEven_mono [of t "of_int n"] by simp

lemma two_powi_pos [simp]: "0 < (2::rat) powi k"
  by (simp add: power_int_def)

lemma two_powi_mono: "j \<le> k \<Longrightarrow> (2::rat) powi j \<le> 2 powi k"
  by (rule power_int_increasing) simp_all

lemma two_powi_strict_mono: "j < k \<Longrightarrow> (2::rat) powi j < 2 powi k"
  by (rule power_int_strict_increasing) simp_all

lemma two_powi_mult: "a + b = c \<Longrightarrow> (2::rat) powi a * 2 powi b = 2 powi c"
  by (auto simp: power_int_add)

lemma two_powi_div: "a - b = c \<Longrightarrow> (2::rat) powi a / 2 powi b = 2 powi c"
  by (auto simp: power_int_diff)

lemma binade_bounds:
  assumes "0 < x"
  shows "2 powi (binade x) \<le> x \<and> x < 2 powi (binade x + 1)"
proof -
  obtain p q where pq: "quotient_of x = (p, q)"
    by (cases "quotient_of x")
  have q: "0 < q" using pq by (rule quotient_of_denom_pos)
  have x: "x = of_int p / of_int q" using pq by (rule quotient_of_div)
  have p: "0 < p"
    using assms q unfolding x by (simp add: zero_less_divide_iff)
  let ?bp = "bitlen p" and ?bq = "bitlen q"
  have bp: "1 \<le> ?bp" and bq: "1 \<le> ?bq"
    using p q bitlen_eq_zero_iff [of p] bitlen_eq_zero_iff [of q] bitlen_nonneg [of p]
      bitlen_nonneg [of q] by linarith+
  have P: "(2::rat) powi (?bp - 1) \<le> of_int p" "(of_int p :: rat) < 2 powi ?bp"
  proof -
    have "(2::int) ^ nat (?bp - 1) \<le> p" "p < 2 ^ nat ?bp"
      using bitlen_bounds [OF p] by simp_all
    then have "(of_int ((2::int) ^ nat (?bp - 1)) :: rat) \<le> of_int p"
      "(of_int p :: rat) < of_int (2 ^ nat ?bp)"
      by (simp_all only: of_int_le_iff of_int_less_iff)
    then show "(2::rat) powi (?bp - 1) \<le> of_int p" "(of_int p :: rat) < 2 powi ?bp"
      using bp by (simp_all add: power_int_def)
  qed
  have Q: "(2::rat) powi (?bq - 1) \<le> of_int q" "(of_int q :: rat) < 2 powi ?bq"
  proof -
    have "(2::int) ^ nat (?bq - 1) \<le> q" "q < 2 ^ nat ?bq"
      using bitlen_bounds [OF q] by simp_all
    then have "(of_int ((2::int) ^ nat (?bq - 1)) :: rat) \<le> of_int q"
      "(of_int q :: rat) < of_int (2 ^ nat ?bq)"
      by (simp_all only: of_int_le_iff of_int_less_iff)
    then show "(2::rat) powi (?bq - 1) \<le> of_int q" "(of_int q :: rat) < 2 powi ?bq"
      using bq by (simp_all add: power_int_def)
  qed
  have q': "(0::rat) < of_int q" using q by simp
  have upper: "x < 2 powi (?bp - ?bq + 1)"
  proof -
    have "of_int p < (2::rat) powi (?bp - ?bq + 1) * 2 powi (?bq - 1)"
      using P(2) by (simp add: power_int_add [symmetric])
    also have "\<dots> \<le> 2 powi (?bp - ?bq + 1) * of_int q"
      using Q(1) by (simp add: mult_left_mono)
    finally show ?thesis
      unfolding x using q' by (simp add: pos_divide_less_eq)
  qed
  have lower: "2 powi (?bp - ?bq - 1) \<le> x"
  proof -
    have "(2::rat) powi (?bp - ?bq - 1) * of_int q \<le> 2 powi (?bp - ?bq - 1) * 2 powi ?bq"
      using Q(2) by (simp add: mult_left_mono)
    also have "\<dots> = 2 powi (?bp - 1)"
      by (simp add: power_int_add [symmetric])
    also have "\<dots> \<le> of_int p" by (rule P(1))
    finally show ?thesis
      unfolding x using q' by (simp add: pos_le_divide_eq)
  qed
  show ?thesis
    using upper lower by (auto simp: binade_def pq Let_def not_le)
qed

lemma binade_unique:
  assumes "0 < x" "2 powi e \<le> x" "x < 2 powi (e + 1)"
  shows "binade x = e"
proof (rule ccontr)
  assume ne: "binade x \<noteq> e"
  note b = binade_bounds [OF assms(1)]
  show False
  proof (cases "binade x < e")
    case True
    then have "(2::rat) powi (binade x + 1) \<le> 2 powi e"
      by (intro two_powi_mono) simp
    then show False using b assms(2) by linarith
  next
    case False
    then have "e + 1 \<le> binade x" using ne by simp
    then have "(2::rat) powi (e + 1) \<le> 2 powi (binade x)"
      by (rule two_powi_mono)
    then show False using b assms(3) by linarith
  qed
qed

lemma binade_mono:
  assumes "0 < x" "x \<le> y"
  shows "binade x \<le> binade y"
proof (rule ccontr)
  assume "\<not> binade x \<le> binade y"
  then have "binade y + 1 \<le> binade x" by simp
  then have "(2::rat) powi (binade y + 1) \<le> 2 powi (binade x)"
    by (rule two_powi_mono)
  moreover have "0 < y" using assms by simp
  ultimately show False
    using binade_bounds [OF assms(1)] binade_bounds [OF \<open>0 < y\<close>] assms(2) by linarith
qed

lemma below_next_binade: "0 < x \<Longrightarrow> x < 2 powi (max (binade x) (- 1022) + 1)"
proof -
  assume "0 < x"
  then have "x < 2 powi (binade x + 1)"
    using binade_bounds by blast
  also have "\<dots> \<le> 2 powi (max (binade x) (- 1022) + 1)"
    by (rule two_powi_mono) simp
  finally show ?thesis .
qed

lemma roundPos_nonneg: "0 \<le> x \<Longrightarrow> 0 \<le> roundPos x"
proof -
  assume "0 \<le> x"
  then have "(of_int 0 :: rat) \<le> x / 2 powi (max (binade x) (- 1022) - 52)"
    by simp
  then have "0 \<le> roundHalfEven (x / 2 powi (max (binade x) (- 1022) - 52))"
    by (rule roundHalfEven_ge)
  then show ?thesis
    by (simp add: roundPos_def Let_def)
qed

lemma roundPos_mono:
  assumes "0 < x" "x \<le> y"
  shows "roundPos x \<le> roundPos y"
proof -
  have y: "0 < y" using assms by simp
  let ?ex = "max (binade x) (- 1022)" and ?ey = "max (binade y) (- 1022)"
  have e: "?ex \<le> ?ey"
    using binade_mono [OF assms] by simp
  show ?thesis
  proof (cases "?ex = ?ey")
    case True
    have "x / 2 powi (?ey - 52) \<le> y / 2 powi (?ey - 52)"
      using assms(2) by (simp add: divide_right_mono)
    then have "roundHalfEven (x / 2 powi (?ey - 52)) \<le> roundHalfEven (y / 2 powi (?ey - 52))"
      by (rule roundHalfEven_mono)
    then have "(of_int (roundHalfEven (x / 2 powi (?ey - 52))) :: rat) * 2 powi (?ey - 52)
        \<le> of_int (roundHalfEven (y / 2 powi (?ey - 52))) * 2 powi (?ey - 52)"
      by (simp add: mult_right_mono)
    then show ?thesis
      by (simp add: roundPos_def Let_def True)
  next
    case False
    with e have lt: "?ex < ?ey" by linarith
    then have ey: "?ey = binade y" by linarith
    have up: "roundPos x \<le> 2 powi (?ex + 1)"
    proof -
      have "x / 2 powi (?ex - 52) < 2 powi (?ex + 1) / 2 powi (?ex - 52)"
        using below_next_binade [OF assms(1)] by (simp add: divide_strict_right_mono)
      also have "\<dots> = 2 powi 53"
        by (rule two_powi_div) linarith
      finally have "x / 2 powi (?ex - 52) \<le> of_int (2 ^ 53)"
        by simp
      then have "roundHalfEven (x / 2 powi (?ex - 52)) \<le> 2 ^ 53"
        by (rule roundHalfEven_le)
      then have "(of_int (roundHalfEven (x / 2 powi (?ex - 52))) :: rat) \<le> of_int (2 ^ 53)"
        by (simp only: of_int_le_iff)
      then have "roundPos x \<le> of_int (2 ^ 53) * 2 powi (?ex - 52)"
        by (simp add: roundPos_def Let_def mult_right_mono)
      also have "\<dots> = 2 powi 53 * 2 powi (?ex - 52)"
        by simp
      also have "\<dots> = 2 powi (?ex + 1)"
        by (rule two_powi_mult) linarith
      finally show ?thesis .
    qed
    have low: "2 powi ?ey \<le> roundPos y"
    proof -
      have "(2::rat) powi 52 = 2 powi ?ey / 2 powi (?ey - 52)"
        by (rule two_powi_div [symmetric]) linarith
      also have "\<dots> \<le> y / 2 powi (?ey - 52)"
        using binade_bounds [OF y] ey by (simp add: divide_right_mono)
      finally have "of_int (2 ^ 52) \<le> y / 2 powi (?ey - 52)"
        by simp
      then have "2 ^ 52 \<le> roundHalfEven (y / 2 powi (?ey - 52))"
        by (rule roundHalfEven_ge)
      then have "(of_int (2 ^ 52) :: rat) \<le> of_int (roundHalfEven (y / 2 powi (?ey - 52)))"
        by (simp only: of_int_le_iff)
      then have "of_int (2 ^ 52) * 2 powi (?ey - 52) \<le> roundPos y"
        by (simp add: roundPos_def Let_def mult_right_mono)
      moreover have "(of_int (2 ^ 52) :: rat) * 2 powi (?ey - 52) = 2 powi 52 * 2 powi (?ey - 52)"
        by simp
      moreover have "(2::rat) powi 52 * 2 powi (?ey - 52) = 2 powi ?ey"
        by (rule two_powi_mult) linarith
      ultimately show ?thesis by simp
    qed
    have "(2::rat) powi (?ex + 1) \<le> 2 powi ?ey"
      using lt by (intro two_powi_mono) linarith
    then show ?thesis
      using up low by linarith
  qed
qed

lemma roundPos_dyadic:
  assumes "0 < m" "m < 2 ^ 53" "- 1074 \<le> j"
  shows "roundPos (of_int m * 2 powi j) = of_int m * 2 powi j"
proof -
  let ?x = "of_int m * (2::rat) powi j"
  have x: "0 < ?x" using assms(1) by simp
  let ?k = "max (binade ?x) (- 1022) - 52"
  have "(of_int m :: rat) < of_int (2 ^ 53)"
    using assms(2) by (simp only: of_int_less_iff)
  then have "?x < 2 powi 53 * 2 powi j"
    by (simp add: mult_strict_right_mono)
  also have "\<dots> = 2 powi (53 + j)"
    by (rule two_powi_mult) simp
  finally have "(2::rat) powi (binade ?x) < 2 powi (53 + j)"
    using binade_bounds [OF x] by linarith
  then have "binade ?x < 53 + j"
    using two_powi_mono [of "53 + j" "binade ?x"] by (cases "binade ?x < 53 + j") auto
  then have k: "?k \<le> j" using assms(3) by simp
  have "?x / 2 powi ?k = of_int m * (2 powi j / 2 powi ?k)"
    by simp
  also have "\<dots> = of_int m * 2 powi (j - ?k)"
    by (simp only: two_powi_div [OF refl])
  also have "\<dots> = of_int (m * 2 ^ nat (j - ?k))"
    using k by (simp add: power_int_def)
  finally have "roundHalfEven (?x / 2 powi ?k) = m * 2 ^ nat (j - ?k)"
    by (simp only: roundHalfEven_of_int)
  then have "roundPos ?x = of_int (m * 2 ^ nat (j - ?k)) * 2 powi ?k"
    by (simp add: roundPos_def Let_def)
  also have "\<dots> = of_int m * (2 powi (j - ?k) * 2 powi ?k)"
    using k by (simp add: power_int_def)
  also have "\<dots> = ?x"
    by (simp only: two_powi_mult [of "j - ?k" ?k j])
  finally show ?thesis .
qed

lemma roundPos_of_int:
  assumes "0 < n" "n \<le> 2 ^ 53"
  shows "roundPos (of_int n) = of_int n"
proof (cases "n = 2 ^ 53")
  case True
  have "roundPos (of_int (2 ^ 52) * 2 powi 1) = of_int (2 ^ 52) * 2 powi 1"
    by (rule roundPos_dyadic) simp_all
  then show ?thesis by (simp add: True)
next
  case False
  then have "n < 2 ^ 53" using assms(2) by simp
  then have "roundPos (of_int n * 2 powi 0) = of_int n * 2 powi 0"
    using assms(1) by (intro roundPos_dyadic) simp_all
  then show ?thesis by simp
qed

lemma toDouble_of_int:
  assumes "\<bar>n\<bar> \<le> 2 ^ 53"
  shows "toDouble (of_int n) = Finite (of_int n)"
proof (cases "n = 0")
  case True
  then show ?thesis by (simp add: toDouble_def)
next
  case False
  then have n: "0 < \<bar>n\<bar>" by simp
  have r: "roundPos (of_int \<bar>n\<bar>) = of_int \<bar>n\<bar>"
    using n assms by (rule roundPos_of_int)
  have "(of_int \<bar>n\<bar> :: rat) \<le> of_int (2 ^ 53)"
    using assms by (simp only: of_int_le_iff)
  also have "\<dots> < 2 ^ 1024" by simp
  finally have small: "\<not> (2::rat) ^ 1024 \<le> of_int \<bar>n\<bar>" by simp
  have "\<bar>of_int n :: rat\<bar> = of_int \<bar>n\<bar>" by simp
  then show ?thesis
    using False r small by (auto simp: toDouble_def Let_def simp del: of_int_abs)
qed

lemma toDouble_mono:
  assumes "x \<le> y"
  shows "le_js (toDouble x) (toDouble y)"
proof -
  consider "0 < x" | "x = 0" | "x < 0" by linarith
  then show ?thesis
  proof cases
    case 1
    then have y: "0 < y" using assms by simp
    have "roundPos x \<le> roundPos y"
      using 1 assms by (rule roundPos_mono)
    then show ?thesis
      using 1 y by (auto simp: toDouble_def Let_def)
  next
    case 2
    then have "0 \<le> y" using assms by simp
    then show ?thesis
      using 2 roundPos_nonneg [of y] by (auto simp: toDouble_def Let_def)
  next
    case 3
    consider "0 < y" | "y = 0" | "y < 0" by linarith
    then show ?thesis
    proof cases
      case 1
      then show ?thesis
        using 3 roundPos_nonneg [of y] roundPos_nonneg [of "- x"]
        by (auto simp: toDouble_def Let_def)
    next
      case 2
      then show ?thesis
        using 3 roundPos_nonneg [of "- x"] by (auto simp: toDouble_def Let_def)
    next
      case 3
      have "roundPos (- y) \<le> roundPos (- x)"
        using 3 assms by (intro roundPos_mono) simp_all
      then show ?thesis
        using 3 \<open>x < 0\<close> by (auto simp: toDouble_def Let_def)
    qed
  qed
qed

lemma toDouble_0 [simp]: "toDouble 0 = Finite 0"
  by (simp add: toDouble_def)

lemma toDouble_1 [simp]: "toDouble 1 = Finite 1"
  using toDouble_of_int [of 1] by simp

lemma toDouble_numeral [simp]:
  "numeral k \<le> (2::int) ^ 53 \<Longrightarrow> toDouble (numeral k) = Finite (numeral k)"
  using toDouble_of_int [of "numeral k"] by simp

lemma NumberOfBigInt_exact: "\<bar>n\<bar> \<le> 2 ^ 53 \<Longrightarrow> NumberOfBigInt n = Finite (of_int n)"
  by (simp add: NumberOfBigInt_def toDouble_of_int)

text \<open>Below \<open>2 ^ 53\<close> the product of two integers is exact.\<close>

lemma times_js_of_int:
  "\<bar>a * b\<bar> \<le> 2 ^ 53 \<Longrightarrow>
     times_js (Finite (of_int a)) (Finite (of_int b)) = Finite (of_int (a * b))"
  using toDouble_of_int [of "a * b"] by simp

text \<open>
  The cap test of doubles follows from the exact inequality whenever the usage counter
  converts exactly (as every counter of magnitude at most \<open>2 ^ 53\<close> does): the sum is then
  rounded once, and rounding is monotone.
\<close>

lemma le_js_plus_exact:
  assumes "NumberOfBigInt used = Finite (of_int used)" and "of_int used + q \<le> of_int cap"
  shows "le_js (plus_js (NumberOfBigInt used) (Finite q)) (NumberOfBigInt cap)"
proof -
  have "le_js (toDouble (of_int used + q)) (toDouble (of_int cap))"
    using assms(2) by (rule toDouble_mono)
  then show ?thesis
    unfolding assms(1) by (simp add: NumberOfBigInt_def)
qed

lemma BigInt_Inr: "BigInt x = Inr b \<longleftrightarrow> x = Finite (of_int b)"
  by (cases x) auto

lemma BigInt_three_halves: "BigInt (Finite (3 / 2)) = Inl RangeError"
proof -
  have "\<lfloor>3 / 2 :: rat\<rfloor> = 1"
    by (simp add: floor_eq_iff)
  then show ?thesis by simp
qed

lemma toDouble_three_halves: "toDouble (3 / 2) = Finite (3 / 2)"
proof -
  have "roundPos (of_int 3 * 2 powi (- 1)) = of_int 3 * 2 powi (- 1)"
    by (rule roundPos_dyadic) simp_all
  then have "roundPos (3 / 2) = 3 / 2"
    by (simp add: power_int_minus field_simps)
  moreover have "\<not> (2::rat) ^ 1024 \<le> 3 / 2"
    by simp
  ultimately show ?thesis
    by (simp add: toDouble_def)
qed

section \<open>Basic facts\<close>

lemma COSTS_Num_iff:
  "COSTS m = Num unit \<longleftrightarrow>
     m = ''basic'' \<and> unit = 1 \<or> m = ''tags'' \<and> unit = 2 \<or>
     m = ''price_accuracy'' \<and> unit = 4 \<or> m = ''full'' \<and> unit = 6"
  by (auto simp: COSTS_def)

lemma COSTS_Num_pos: "COSTS m = Num unit \<Longrightarrow> 0 < unit"
  by (auto simp: COSTS_Num_iff)

lemma COSTS_truthy: "truthy (COSTS m) \<longleftrightarrow> COSTS m \<noteq> Undefined"
  by (simp add: COSTS_def)

lemma getInferenceCost_ok:
  "COSTS m = Num unit \<Longrightarrow> 0 < q \<Longrightarrow>
     getInferenceCost m (Finite q) = Inr (times_js (Finite (of_int unit)) (Finite q))"
  using COSTS_Num_pos [of m unit] by (simp add: getInferenceCost_def)

text \<open>For an integer quantity whose cost is at most \<open>2 ^ 53\<close> the cost is the exact product.\<close>

lemma getInferenceCost_known:
  assumes "COSTS m = Num unit" "0 < q" "unit * q \<le> 2 ^ 53"
  shows "getInferenceCost m (Finite (of_int q)) = Inr (Finite (of_int (unit * q)))"
proof -
  have "0 < unit * q"
    using COSTS_Num_pos [OF assms(1)] assms(2) by simp
  then have "\<bar>unit * q\<bar> \<le> 2 ^ 53"
    using assms(3) by simp
  then have "times_js (Finite (of_int unit)) (Finite (of_int q)) = Finite (of_int (unit * q))"
    by (rule times_js_of_int)
  moreover have "(0::rat) < of_int q"
    using assms(2) by simp
  ultimately show ?thesis
    using getInferenceCost_ok [OF assms(1), of "of_int q"] by simp
qed

text \<open>The cost does not decrease when the quantity grows, rounding and overflow included.\<close>

lemma getInferenceCost_mono:
  assumes "COSTS m = Num unit" "0 < q" "q \<le> q'"
  shows "\<exists>k k'. getInferenceCost m (Finite q) = Inr k \<and>
           getInferenceCost m (Finite q') = Inr k' \<and> le_js k k'"
proof -
  have "0 \<le> (of_int unit :: rat)"
    using COSTS_Num_pos [OF assms(1)] by simp
  then have "of_int unit * q \<le> of_int unit * q'"
    using assms(3) by (rule mult_left_mono [rotated])
  then have "le_js (toDouble (of_int unit * q)) (toDouble (of_int unit * q'))"
    by (rule toDouble_mono)
  moreover have "0 < q'" using assms(2,3) by simp
  ultimately show ?thesis
    using getInferenceCost_ok [OF assms(1,2)] getInferenceCost_ok [OF assms(1) \<open>0 < q'\<close>]
    by simp
qed

lemma getInferenceCost_unknown:
  "COSTS m = Undefined \<Longrightarrow> getInferenceCost m quantity = Inl (Error ''Unknown mode'')"
  by (simp add: getInferenceCost_def)

lemma getInferenceCost_bad_quantity:
  "COSTS m \<noteq> Undefined \<Longrightarrow> \<not> isFinite quantity \<or> leZero quantity \<Longrightarrow>
     getInferenceCost m quantity = Inl (Error ''quantity must be > 0'')"
  by (auto simp: getInferenceCost_def COSTS_truthy)

text \<open>A cost that was returned and converts to a BigInt is the product for a mode of
  the cost table and a positive finite quantity.\<close>

lemma getInferenceCost_Inr:
  assumes "getInferenceCost m quantity = Inr cst" and "BigInt cst = Inr b"
  shows "\<exists>unit n. COSTS m = Num unit \<and> quantity = Finite n \<and> 0 < n \<and>
           cst = times_js (Finite (of_int unit)) (Finite n)"
proof (cases "COSTS m")
  case Undefined
  then show ?thesis using assms by (simp add: getInferenceCost_def)
next
  case (Num unit)
  then show ?thesis
    using assms by (cases quantity) (auto simp: getInferenceCost_def split: if_splits)
next
  case Inherited
  then show ?thesis
    using assms by (cases quantity) (auto simp: getInferenceCost_def split: if_splits)
qed

lemma isRateLimited_fst:
  "fst (isRateLimited st now u) = (RATE_LIMIT_PER_MINUTE \<le> length (recent st now u))"
  by (simp add: isRateLimited_def Let_def)

lemma isRateLimited_snd:
  "snd (isRateLimited st now u) = st\<lparr>rateLimiter := (rateLimiter st)(u \<mapsto> recent st now u @ [now])\<rparr>"
  by (simp add: isRateLimited_def Let_def)

lemma recent_burst: "t' - t \<le> windowMs \<Longrightarrow> recent (burst u n t) t' u = replicate n t"
  by (simp add: recent_def burst_def newOracle_def)

lemma recent_later:
  assumes "now \<le> now'"
  shows "filter (\<lambda>t. now' - t \<le> windowMs) (filter (\<lambda>t. now - t \<le> windowMs) arr) =
         filter (\<lambda>t. now' - t \<le> windowMs) arr"
proof -
  have "now' - t \<le> windowMs \<Longrightarrow> now - t \<le> windowMs" for t
    using assms by linarith
  then show ?thesis
    by (induction arr) auto
qed

lemma getUserSubscription_fst:
  "fst (getUserSubscription c st u) = fst (getUserSubscription c st' u)"
  by (simp add: getUserSubscription_def Let_def split: option.splits)

lemma getUserCredits_fst:
  "fst (getUserCredits c st u) = fst (getUserCredits c st' u)"
  by (simp add: getUserCredits_def Let_def split: option.splits)

lemma getUserSubscription_granted:
  "grantedInitial (snd (getUserSubscription c st u)) = grantedInitial st"
  by (simp add: getUserSubscription_def Let_def split: option.splits)

lemma getUserCredits_granted:
  "grantedInitial (snd (getUserCredits c st u)) = grantedInitial st"
  by (simp add: getUserCredits_def Let_def split: option.splits)

lemma isRateLimited_granted:
  "grantedInitial (snd (isRateLimited st now u)) = grantedInitial st"
  by (simp add: isRateLimited_snd)

lemma initialGrantCondition_cong:
  "grantedInitial st' = grantedInitial st \<Longrightarrow>
     initialGrantCondition st' u credits sub = initialGrantCondition st u credits sub"
  by (simp add: initialGrantCondition_def)

lemma getUserSubscription_calls:
  "\<exists>cs. calls (snd (getUserSubscription c st u)) = calls st @ Call_getUserSubscription u # cs"
  by (simp add: getUserSubscription_def Let_def split: option.splits)

lemma getUserCredits_calls:
  "calls (snd (getUserCredits c st u)) = calls st @ [Call_getUserCredits u]"
  by (simp add: getUserCredits_def Let_def split: option.splits)

lemma isRateLimited_calls: "calls (snd (isRateLimited st now u)) = calls st"
  by (simp add: isRateLimited_snd)

text \<open>
  The decision of a call that is not rate limited, as a function of what it fetched. The
  fallback of step 6 repeats the test of step 4 on the same values, so it is never
  reached and does not appear.
\<close>

lemma authorizeInference_not_limited:
  assumes "\<not> fst (isRateLimited st now u)"
  shows "fst (authorizeInference c st now u m quantity) =
    (let sub = fst (getUserSubscription c st u); credits = fst (getUserCredits c st u) in
     if initialGrantCondition st u credits sub then
       Inr \<lparr>allowed = True, method' = InitialGrant, reason = ''initial_50_credits'', cost = Finite 0\<rparr>
     else
       (case getInferenceCost m quantity of
          Inl e \<Rightarrow> Inl e
        | Inr cst \<Rightarrow>
            if subscribedWithinCap sub m quantity then
              Inr \<lparr>allowed = True, method' = Subscription, reason = ''within_subscription_cap'',
                   cost = Finite 0\<rparr>
            else
              (case BigInt cst of
                 Inl e \<Rightarrow> Inl e
               | Inr bigCost \<Rightarrow>
                   if bigCost \<le> credits then
                     Inr \<lparr>allowed = True, method' = Credits, reason = ''sufficient_credits'',
                          cost = cst\<rparr>
                   else
                     Inr \<lparr>allowed = False, method' = Deny,
                          reason = ''insufficient_balance_and_cap'', cost = cst\<rparr>)))"
proof -
  obtain st1 where r: "isRateLimited st now u = (False, st1)"
    using assms by (cases "isRateLimited st now u") auto
  obtain sub st2 where s: "getUserSubscription c st1 u = (sub, st2)"
    by (cases "getUserSubscription c st1 u")
  obtain credits st3 where k: "getUserCredits c st2 u = (credits, st3)"
    by (cases "getUserCredits c st2 u")
  have sub: "fst (getUserSubscription c st u) = sub"
    using s getUserSubscription_fst [of c st u st1] by simp
  have credits: "fst (getUserCredits c st u) = credits"
    using k getUserCredits_fst [of c st u st2] by simp
  have "grantedInitial st3 = grantedInitial st"
    using r s k isRateLimited_granted [of st now u] getUserSubscription_granted [of c st1 u]
      getUserCredits_granted [of c st2 u] by simp
  then have g: "initialGrantCondition st3 u credits sub = initialGrantCondition st u credits sub"
    by (rule initialGrantCondition_cong)
  show ?thesis
    by (simp add: authorizeInference_def r s k sub credits g split: sum.splits)
qed

lemma authorizeInference_limited:
  assumes "fst (isRateLimited st now u)"
  shows "authorizeInference c st now u m quantity =
    (Inr \<lparr>allowed = False, method' = Deny, reason = ''rate_limited'', cost = Finite 0\<rparr>,
     snd (isRateLimited st now u))"
  using assms by (cases "isRateLimited st now u") (auto simp: authorizeInference_def)

text \<open>What a call that is not rate limited and does not take the initial-grant branch reads.\<close>

lemma authorizeInference_calls:
  assumes "\<not> fst (isRateLimited st now u)"
  shows "\<exists>cs. calls (snd (authorizeInference c st now u m quantity)) =
           calls st @ Call_getUserSubscription u # cs @ [Call_getUserCredits u]"
proof -
  obtain st1 where r: "isRateLimited st now u = (False, st1)"
    using assms by (cases "isRateLimited st now u") auto
  obtain sub st2 where s: "getUserSubscription c st1 u = (sub, st2)"
    by (cases "getUserSubscription c st1 u")
  obtain credits st3 where k: "getUserCredits c st2 u = (credits, st3)"
    by (cases "getUserCredits c st2 u")
  have "calls st1 = calls st"
    using r isRateLimited_calls [of st now u] by simp
  moreover obtain cs where "calls st2 = calls st1 @ Call_getUserSubscription u # cs"
    using s getUserSubscription_calls [of c st1 u] by auto
  moreover have "calls st3 = calls st2 @ [Call_getUserCredits u]"
    using k getUserCredits_calls [of c st2 u] by simp
  ultimately have c3: "calls st3 = calls st @ Call_getUserSubscription u # cs @ [Call_getUserCredits u]"
    by simp
  have "snd (authorizeInference c st now u m quantity) = st3"
    by (simp add: authorizeInference_def r s k split: sum.splits)
  then show ?thesis
    using c3 by auto
qed

lemma authorizeInference_granted:
  "grantedInitial (snd (authorizeInference c st now u m quantity)) = grantedInitial st"
proof -
  obtain lim st1 where r: "isRateLimited st now u = (lim, st1)"
    by (cases "isRateLimited st now u")
  obtain sub st2 where s: "getUserSubscription c st1 u = (sub, st2)"
    by (cases "getUserSubscription c st1 u")
  obtain credits st3 where k: "getUserCredits c st2 u = (credits, st3)"
    by (cases "getUserCredits c st2 u")
  have g: "grantedInitial st1 = grantedInitial st" "grantedInitial st3 = grantedInitial st"
    using r s k isRateLimited_granted [of st now u] getUserSubscription_granted [of c st1 u]
      getUserCredits_granted [of c st2 u] by simp_all
  show ?thesis
    by (cases lim) (simp_all add: authorizeInference_def r s k g split: sum.splits)
qed

text \<open>The initial-grant branch, where it is taken: the subscription is \<open>null\<close>, or its plan
  id is the Number 0.\<close>

lemma initial_grant_taken:
  assumes "\<not> fst (isRateLimited st now u)"
    and "u \<notin> grantedInitial st"
    and "fst (getUserCredits c st u) = 0"
    and "case fst (getUserSubscription c st u) of None \<Rightarrow> True
         | Some s \<Rightarrow> planId s = JSNumber 0"
  shows "fst (authorizeInference c st now u m quantity) =
           Inr \<lparr>allowed = True, method' = InitialGrant, reason = ''initial_50_credits'',
                cost = Finite 0\<rparr>"
  using assms(2,3,4)
  by (auto simp: authorizeInference_not_limited [OF assms(1)] initialGrantCondition_def
      split: option.splits)

text \<open>The branch is never taken on a subscription record whose plan id is a BigInt.\<close>

lemma initial_grant_not_taken:
  "planId s = JSBigInt n \<Longrightarrow> \<not> initialGrantCondition st u credits (Some s)"
  by (simp add: initialGrantCondition_def)

text \<open>
  The credit branch, for a call on which the rate-limit, initial-grant and subscription
  branches all decline and whose cost was computed: the call throws when the cost does not
  convert to a BigInt, and is otherwise settled on credits or denied, carrying the cost.
\<close>

lemma credits_or_deny:
  assumes "\<not> fst (isRateLimited st now u)"
    and "fst (getUserSubscription c st u) = sub"
    and "fst (getUserCredits c st u) = credits"
    and "\<not> initialGrantCondition st u credits sub"
    and "getInferenceCost m quantity = Inr cst"
    and "\<not> subscribedWithinCap sub m quantity"
  shows "fst (authorizeInference c st now u m quantity) =
           (case BigInt cst of
              Inl e \<Rightarrow> Inl e
            | Inr bigCost \<Rightarrow>
                if bigCost \<le> credits
                then Inr \<lparr>allowed = True, method' = Credits, reason = ''sufficient_credits'',
                          cost = cst\<rparr>
                else Inr \<lparr>allowed = False, method' = Deny,
                          reason = ''insufficient_balance_and_cap'', cost = cst\<rparr>)"
  using assms(4,6)
  by (simp add: authorizeInference_not_limited [OF assms(1)] assms(2,3,5))

text \<open>For an integer quantity whose cost is at most \<open>2 ^ 53\<close> the conversion succeeds.\<close>

lemma credits_or_deny_integer:
  assumes "\<not> fst (isRateLimited st now u)"
    and "fst (getUserSubscription c st u) = sub"
    and "fst (getUserCredits c st u) = credits"
    and "\<not> initialGrantCondition st u credits sub"
    and "COSTS m = Num unit" and "0 < q" and "unit * q \<le> 2 ^ 53"
    and "\<not> subscribedWithinCap sub m (Finite (of_int q))"
  shows "fst (authorizeInference c st now u m (Finite (of_int q))) =
           (if unit * q \<le> credits
            then Inr \<lparr>allowed = True, method' = Credits, reason = ''sufficient_credits'',
                      cost = Finite (of_int (unit * q))\<rparr>
            else Inr \<lparr>allowed = False, method' = Deny,
                      reason = ''insufficient_balance_and_cap'',
                      cost = Finite (of_int (unit * q))\<rparr>)"
proof -
  have b: "BigInt (Finite (of_int (unit * q))) = Inr (unit * q)"
    by (simp only: BigInt_Inr)
  show ?thesis
    unfolding credits_or_deny [OF assms(1-4) getInferenceCost_known [OF assms(5-7)] assms(8)] b
    by simp
qed

text \<open>
  What the two reads do when a contract call fails, and what the call then returns. A
  subscription read that fails, at the view call or at the call for the plan's \<open>active\<close>
  flag, yields \<open>null\<close>, which is not subscribed; a credit read that fails yields the
  balance 0. An error thrown by \<open>authorizeInference\<close> is always one of the cost
  computation or of the conversion of the cost, which depend on the mode and the quantity
  alone; when both succeed a decision is returned whatever the contract does. When both
  reads fail on a call that is not rate limited, for an integer quantity whose cost is at
  most \<open>2 ^ 53\<close>, the decision is the initial grant for a user outside the guard and the
  denial for insufficient balance otherwise.
\<close>

lemma read_failures_degrade:
  "(view_getUserSubscription c u = None \<longrightarrow> fst (getUserSubscription c st u) = None)
   \<and> (\<forall>res. view_getUserSubscription c u = Some res \<and> 0 < toNumber (res_planId res) \<and>
          view_plans c (res_planId res) = None \<longrightarrow> fst (getUserSubscription c st u) = None)
   \<and> \<not> isSubscribed None
   \<and> (view_getUserCredits c u = None \<longrightarrow> fst (getUserCredits c st u) = 0)
   \<and> (\<forall>e. fst (authorizeInference c st now u m quantity) = Inl e \<longrightarrow>
          getInferenceCost m quantity = Inl e \<or>
          (\<exists>cst. getInferenceCost m quantity = Inr cst \<and> BigInt cst = Inl e))
   \<and> (\<forall>cst b. getInferenceCost m quantity = Inr cst \<and> BigInt cst = Inr b \<longrightarrow>
          (\<exists>d. fst (authorizeInference c st now u m quantity) = Inr d))
   \<and> (view_getUserSubscription c u = None \<and> view_getUserCredits c u = None \<and>
        \<not> fst (isRateLimited st now u) \<and> COSTS m = Num unit \<and> 0 < q \<and> unit * q \<le> 2 ^ 53 \<longrightarrow>
        fst (authorizeInference c st now u m (Finite (of_int q))) =
          (if u \<notin> grantedInitial st
           then Inr \<lparr>allowed = True, method' = InitialGrant, reason = ''initial_50_credits'',
                     cost = Finite 0\<rparr>
           else Inr \<lparr>allowed = False, method' = Deny,
                     reason = ''insufficient_balance_and_cap'',
                     cost = Finite (of_int (unit * q))\<rparr>))"
proof -
  have a: "view_getUserSubscription c u = None \<Longrightarrow> fst (getUserSubscription c st u) = None"
    by (simp add: getUserSubscription_def)
  have b: "view_getUserSubscription c u = Some res \<Longrightarrow> 0 < toNumber (res_planId res) \<Longrightarrow>
          view_plans c (res_planId res) = None \<Longrightarrow> fst (getUserSubscription c st u) = None"
    for res by (simp add: getUserSubscription_def)
  have k: "view_getUserCredits c u = None \<Longrightarrow> fst (getUserCredits c st u) = 0"
    by (simp add: getUserCredits_def)
  have err: "getInferenceCost m quantity = Inl e \<or>
          (\<exists>cst. getInferenceCost m quantity = Inr cst \<and> BigInt cst = Inl e)"
    if "fst (authorizeInference c st now u m quantity) = Inl e" for e
  proof (cases "fst (isRateLimited st now u)")
    case True
    then show ?thesis using that by (simp add: authorizeInference_limited)
  next
    case False
    then show ?thesis
      using that
      by (auto simp: authorizeInference_not_limited Let_def split: if_splits sum.splits)
  qed
  have d: "\<exists>d. fst (authorizeInference c st now u m quantity) = Inr d"
    if "getInferenceCost m quantity = Inr cst" "BigInt cst = Inr b" for cst b
  proof (cases "fst (isRateLimited st now u)")
    case True
    then show ?thesis by (simp add: authorizeInference_limited)
  next
    case False
    then show ?thesis
      by (simp add: authorizeInference_not_limited that Let_def)
  qed
  have e: "fst (authorizeInference c st now u m (Finite (of_int q))) =
          (if u \<notin> grantedInitial st
           then Inr \<lparr>allowed = True, method' = InitialGrant, reason = ''initial_50_credits'',
                     cost = Finite 0\<rparr>
           else Inr \<lparr>allowed = False, method' = Deny,
                     reason = ''insufficient_balance_and_cap'',
                     cost = Finite (of_int (unit * q))\<rparr>)"
    if "view_getUserSubscription c u = None" "view_getUserCredits c u = None"
      "\<not> fst (isRateLimited st now u)" "COSTS m = Num unit" "0 < q" "unit * q \<le> 2 ^ 53"
  proof (cases "u \<in> grantedInitial st")
    case False
    then show ?thesis
      using initial_grant_taken [OF that(3) False k [OF that(2)],
          where m = m and quantity = "Finite (of_int q)"]
      by (simp add: a [OF that(1)])
  next
    case True
    have "0 < unit * q"
      using COSTS_Num_pos [OF that(4)] that(5) by simp
    moreover have "\<not> initialGrantCondition st u 0 None"
      using True by (simp add: initialGrantCondition_def)
    moreover have "\<not> subscribedWithinCap None m (Finite (of_int q))"
      by (simp add: subscribedWithinCap_def)
    ultimately show ?thesis
      using True
        credits_or_deny_integer [OF that(3) a [OF that(1)] k [OF that(2)] _ that(4,5,6)]
      by simp
  qed
  show ?thesis
    using a b k err d e by (simp add: isSubscribed_def)
qed

section \<open>Claims about the authorization decision\<close>

text \<open>
  C1. A call that is not rate limited, whose fetched subscription is present with a
  positive plan id and an active plan, and whose \<open>usedThisWindow + quantity\<close> is at most
  the effective cap (the global cap 3000 for the modes \<open>price_accuracy\<close> and \<open>full\<close>, the
  plan's own monthly cap for the others), is allowed by subscription with reason
  \<open>within_subscription_cap\<close> and cost 0. The mode is one of the four of the cost table
  and the quantity is a positive number, as the contract of the call requires. The cap
  test is the one the program makes, on doubles; it holds in particular when the exact
  inequality holds and \<open>Number(...)\<close> converts the usage counter exactly, as it does for
  every counter of magnitude at most \<open>2 ^ 53\<close>. With a positive plan id the initial-grant
  branch cannot be taken, so that needs no hypothesis.
\<close>

theorem subscription_within_cap:
  assumes "\<not> fst (isRateLimited st now u)"
    and "fst (getUserSubscription c st u) = Some s"
    and "0 < toNumber (planId s)" and "active (plan s)"
    and "COSTS m = Num unit" and "0 < q"
    and "le_js (plus_js (NumberOfBigInt (usedThisWindow s)) (Finite q))
           (if m = ''price_accuracy'' \<or> m = ''full''
            then Finite (of_int GLOBAL_PRICE_ACCURACY_CAP)
            else NumberOfBigInt (monthlyCap (plan s)))
         \<or> NumberOfBigInt (usedThisWindow s) = Finite (of_int (usedThisWindow s)) \<and>
           of_int (usedThisWindow s) + q \<le>
             of_int (if m = ''price_accuracy'' \<or> m = ''full'' then GLOBAL_PRICE_ACCURACY_CAP
                     else monthlyCap (plan s))"
  shows "fst (authorizeInference c st now u m (Finite q)) =
           Inr \<lparr>allowed = True, method' = Subscription, reason = ''within_subscription_cap'',
                cost = Finite 0\<rparr>"
proof -
  have "\<not> strictEqNumber (planId s) 0"
    using assms(3) by (cases "planId s") auto
  then have ini: "\<not> initialGrantCondition st u (fst (getUserCredits c st u)) (Some s)"
    by (simp add: initialGrantCondition_def)
  have g: "Finite (of_int GLOBAL_PRICE_ACCURACY_CAP) = NumberOfBigInt GLOBAL_PRICE_ACCURACY_CAP"
    by (simp add: NumberOfBigInt_exact GLOBAL_PRICE_ACCURACY_CAP_def)
  have test: "le_js (plus_js (NumberOfBigInt (usedThisWindow s)) (Finite q))
           (if m = ''price_accuracy'' \<or> m = ''full''
            then Finite (of_int GLOBAL_PRICE_ACCURACY_CAP)
            else NumberOfBigInt (monthlyCap (plan s)))"
    using assms(7)
  proof
    assume "le_js (plus_js (NumberOfBigInt (usedThisWindow s)) (Finite q))
           (if m = ''price_accuracy'' \<or> m = ''full''
            then Finite (of_int GLOBAL_PRICE_ACCURACY_CAP)
            else NumberOfBigInt (monthlyCap (plan s)))"
    then show ?thesis .
  next
    assume ex: "NumberOfBigInt (usedThisWindow s) = Finite (of_int (usedThisWindow s)) \<and>
           of_int (usedThisWindow s) + q \<le>
             of_int (if m = ''price_accuracy'' \<or> m = ''full'' then GLOBAL_PRICE_ACCURACY_CAP
                     else monthlyCap (plan s))"
    show ?thesis
    proof (cases "m = ''price_accuracy'' \<or> m = ''full''")
      case True
      then have "le_js (plus_js (NumberOfBigInt (usedThisWindow s)) (Finite q))
          (NumberOfBigInt GLOBAL_PRICE_ACCURACY_CAP)"
        using ex by (intro le_js_plus_exact) simp_all
      then show ?thesis
        using True by (simp only: g if_True)
    next
      case False
      then have "le_js (plus_js (NumberOfBigInt (usedThisWindow s)) (Finite q))
          (NumberOfBigInt (monthlyCap (plan s)))"
        using ex by (intro le_js_plus_exact) simp_all
      then show ?thesis
        using False by (simp only: if_False)
    qed
  qed
  have cap: "subscribedWithinCap (Some s) m (Finite q)"
    using assms(3,4) test
    by (simp add: subscribedWithinCap_def isSubscribed_def withinCap_def isPriceAccuracyMode_def
        del: plus_js.simps)
  show ?thesis
    using ini cap
    by (simp add: authorizeInference_not_limited [OF assms(1)] assms(2)
        getInferenceCost_ok [OF assms(5,6)] del: times_js.simps)
qed

theorem subscription_within_cap_witness:
  "fst (authorizeInference (ledger (JSBigInt 1) 2900 5 True 0) newOracle 1000 ''0xabc''
          ''full'' (Finite 50)) =
     Inr \<lparr>allowed = True, method' = Subscription, reason = ''within_subscription_cap'',
          cost = Finite 0\<rparr>"
  by (rule subscription_within_cap [where unit = 6 and
        s = "subscriptionObject \<lparr>res_planId = JSBigInt 1, res_startTs = 0,
               res_usedThisWindow = 2900, res_lastRenewedAt = 0, res_planMonthlyCap = 5,
               res_planPriceUnits = 0\<rparr> True"])
     (simp_all add: isRateLimited_fst recent_def newOracle_def RATE_LIMIT_PER_MINUTE_def
        getUserSubscription_def ledger_def subscriptionObject_def COSTS_def
        GLOBAL_PRICE_ACCURACY_CAP_def NumberOfBigInt_exact)

text \<open>
  C2, at the input where the code departs from it. A user outside the guard, with a
  credit balance of 0 and a subscription record whose plan id is the BigInt 0 (what the
  contract read returns for a user with no plan), is not given the initial grant: the
  test \<open>subscription.planId === 0\<close> compares a BigInt with a Number and is false, so the
  call goes on to the credit branch and is denied.
\<close>

theorem initial_grant_bigint_plan_id:
  "fst (authorizeInference (ledger (JSBigInt 0) 0 0 False 0) newOracle 1000 ''0xabc''
          ''basic'' (Finite 1)) =
     Inr \<lparr>allowed = False, method' = Deny, reason = ''insufficient_balance_and_cap'',
          cost = Finite 1\<rparr>"
  by (simp add: authorizeInference_def isRateLimited_def recent_def newOracle_def
      RATE_LIMIT_PER_MINUTE_def getUserSubscription_def getUserCredits_def ledger_def
      initialGrantCondition_def subscriptionObject_def getInferenceCost_def COSTS_def
      subscribedWithinCap_def isSubscribed_def)

theorem initial_grant_bigint_plan_id_witness:
  "fst (authorizeInference (ledger (JSBigInt 0) 0 0 False 0) newOracle 1000 ''0xabc''
          ''basic'' (Finite 1)) \<noteq>
     Inr \<lparr>allowed = True, method' = InitialGrant, reason = ''initial_50_credits'',
          cost = Finite 0\<rparr>"
  using initial_grant_bigint_plan_id by simp

text \<open>
  C3, at the input where the code departs from it. A user with no plan and 5 credits asks
  for 1.5 \<open>basic\<close> inferences. The quantity passes the check of \<open>getInferenceCost\<close>, the
  cost is 1.5, the rate-limit, initial-grant and subscription branches decline, and the
  conversion \<open>BigInt(cost)\<close> of the credit branch throws a \<open>RangeError\<close>: the call returns
  neither the credits decision nor the denial.
\<close>

theorem fractional_cost_range_error:
  "fst (authorizeInference (ledger (JSBigInt 0) 0 0 False 5) newOracle 1000 ''0xabc''
          ''basic'' (Finite (3 / 2))) = Inl RangeError"
  by (simp add: authorizeInference_def isRateLimited_def recent_def newOracle_def
      RATE_LIMIT_PER_MINUTE_def getUserSubscription_def getUserCredits_def ledger_def
      initialGrantCondition_def subscriptionObject_def getInferenceCost_def COSTS_def
      subscribedWithinCap_def isSubscribed_def toDouble_three_halves BigInt_three_halves
      del: BigInt.simps)

theorem fractional_cost_range_error_witness:
  "fst (authorizeInference (ledger (JSBigInt 0) 0 0 False 5) newOracle 1000 ''0xabc''
          ''basic'' (Finite (3 / 2))) \<noteq>
     Inr \<lparr>allowed = True, method' = Credits, reason = ''sufficient_credits'',
          cost = Finite (3 / 2)\<rparr>"
  using fractional_cost_range_error by simp

text \<open>
  C4. A call by a user with 30 or more recorded timestamps inside the trailing 60-second
  window returns the \<open>rate_limited\<close> denial with cost 0; the only change to the oracle
  is that the user's sequence becomes the in-window timestamps followed by the current
  one, so no contract call is made (the call log is unchanged) and the limited call is
  itself recorded. For the next 60 seconds that timestamp is counted by every later
  check of the same user, on top of what the check would have counted otherwise.
\<close>

theorem rate_limited_deny:
  assumes "RATE_LIMIT_PER_MINUTE \<le> length (recent st now u)"
  shows "authorizeInference c st now u m quantity =
           (Inr \<lparr>allowed = False, method' = Deny, reason = ''rate_limited'', cost = Finite 0\<rparr>,
            st\<lparr>rateLimiter := (rateLimiter st)(u \<mapsto> recent st now u @ [now])\<rparr>)
       \<and> calls (snd (authorizeInference c st now u m quantity)) = calls st
       \<and> (\<forall>now'. now \<le> now' \<and> now' - now \<le> windowMs \<longrightarrow>
             recent (snd (authorizeInference c st now u m quantity)) now' u =
               recent st now' u @ [now])"
proof -
  let ?st' = "st\<lparr>rateLimiter := (rateLimiter st)(u \<mapsto> recent st now u @ [now])\<rparr>"
  have lim: "fst (isRateLimited st now u)"
    using assms by (simp add: isRateLimited_fst)
  have res: "authorizeInference c st now u m quantity =
      (Inr \<lparr>allowed = False, method' = Deny, reason = ''rate_limited'', cost = Finite 0\<rparr>, ?st')"
    by (simp add: authorizeInference_limited [OF lim] isRateLimited_snd)
  have later: "recent ?st' now' u = recent st now' u @ [now]"
    if "now \<le> now'" "now' - now \<le> windowMs" for now'
    using that recent_later [OF that(1)] by (simp add: recent_def)
  show ?thesis
    using later by (simp add: res)
qed

theorem rate_limited_deny_witness:
  "authorizeInference unreachable (burst ''0xabc'' 30 500) 1000 ''0xabc'' ''full'' (Finite 50) =
     (Inr \<lparr>allowed = False, method' = Deny, reason = ''rate_limited'', cost = Finite 0\<rparr>,
      (burst ''0xabc'' 30 500)\<lparr>rateLimiter :=
         (rateLimiter (burst ''0xabc'' 30 500))(''0xabc'' \<mapsto> replicate 30 500 @ [1000])\<rparr>)"
proof -
  have r: "recent (burst ''0xabc'' 30 500) 1000 ''0xabc'' = replicate 30 500"
    by (rule recent_burst) (simp add: windowMs_def)
  have h: "RATE_LIMIT_PER_MINUTE \<le> length (recent (burst ''0xabc'' 30 500) 1000 ''0xabc'')"
    by (simp add: r RATE_LIMIT_PER_MINUTE_def)
  show ?thesis
    using rate_limited_deny [OF h, of unreachable "''full''" "Finite 50"] by (simp add: r)
qed

text \<open>
  C5, as stated, fails. A call with an unknown mode and quantity 0 by a user on the
  initial-grant branch is allowed, with no validation error at all; a call with an
  unknown mode that gets past that branch does fail with \<open>Unknown mode\<close>, but only after
  the subscription and the credit balance have been read; and a rate-limited call with
  an unknown mode and quantity 0 returns the \<open>rate_limited\<close> denial.
\<close>

theorem validation_order_counterexample:
  "fst (authorizeInference unreachable newOracle 1000 ''0xabc'' ''bogus'' (Finite 0)) =
     Inr \<lparr>allowed = True, method' = InitialGrant, reason = ''initial_50_credits'',
          cost = Finite 0\<rparr>
   \<and> fst (authorizeInference (ledger (JSBigInt 0) 0 0 False 5) newOracle 1000 ''0xabc''
          ''bogus'' (Finite 1)) = Inl (Error ''Unknown mode'')
   \<and> calls (snd (authorizeInference (ledger (JSBigInt 0) 0 0 False 5) newOracle 1000 ''0xabc''
          ''bogus'' (Finite 1))) =
     [Call_getUserSubscription ''0xabc'', Call_getUserCredits ''0xabc'']
   \<and> fst (authorizeInference unreachable (burst ''0xabc'' 30 500) 1000 ''0xabc''
          ''bogus'' (Finite 0)) =
     Inr \<lparr>allowed = False, method' = Deny, reason = ''rate_limited'', cost = Finite 0\<rparr>"
proof -
  have r: "recent (burst ''0xabc'' 30 500) 1000 ''0xabc'' = replicate 30 500"
    by (rule recent_burst) (simp add: windowMs_def)
  have lim: "fst (isRateLimited (burst ''0xabc'' 30 500) 1000 ''0xabc'')"
    by (simp add: isRateLimited_fst r RATE_LIMIT_PER_MINUTE_def)
  have a: "fst (authorizeInference unreachable newOracle 1000 ''0xabc'' ''bogus'' (Finite 0)) =
     Inr \<lparr>allowed = True, method' = InitialGrant, reason = ''initial_50_credits'',
          cost = Finite 0\<rparr>"
    by (simp add: authorizeInference_def isRateLimited_def recent_def newOracle_def
        RATE_LIMIT_PER_MINUTE_def getUserSubscription_def getUserCredits_def unreachable_def
        initialGrantCondition_def)
  have b: "authorizeInference (ledger (JSBigInt 0) 0 0 False 5) newOracle 1000 ''0xabc''
          ''bogus'' (Finite 1) = (Inl (Error ''Unknown mode''),
            \<lparr>rateLimiter = [''0xabc'' \<mapsto> [1000]], grantedInitial = {},
             calls = [Call_getUserSubscription ''0xabc'', Call_getUserCredits ''0xabc'']\<rparr>)"
    by (simp add: authorizeInference_def isRateLimited_def recent_def newOracle_def
        RATE_LIMIT_PER_MINUTE_def getUserSubscription_def getUserCredits_def ledger_def
        initialGrantCondition_def subscriptionObject_def getInferenceCost_def COSTS_def
        objectPrototypeKeys_def)
  show ?thesis
    by (simp add: a b authorizeInference_limited [OF lim])
qed

text \<open>
  C5, amended. If the quantity is not a positive finite number, or the cost-table lookup
  of the mode yields \<open>undefined\<close>, then a call that is not rate limited and does not take
  the initial-grant branch fails with a validation error (\<open>Unknown mode\<close> when the lookup
  is undefined, \<open>quantity must be > 0\<close> otherwise), and it fails after the subscription
  read and the credit-balance read have both been made.
\<close>

theorem validation_after_reads:
  assumes "\<not> fst (isRateLimited st now u)"
    and "\<not> initialGrantCondition st u (fst (getUserCredits c st u))
            (fst (getUserSubscription c st u))"
    and "COSTS m = Undefined \<or> \<not> isFinite quantity \<or> leZero quantity"
  shows "fst (authorizeInference c st now u m quantity) =
           Inl (Error (if COSTS m = Undefined then ''Unknown mode''
                       else ''quantity must be > 0''))
       \<and> (\<exists>cs. calls (snd (authorizeInference c st now u m quantity)) =
             calls st @ Call_getUserSubscription u # cs @ [Call_getUserCredits u])"
proof -
  have "getInferenceCost m quantity =
          Inl (Error (if COSTS m = Undefined then ''Unknown mode'' else ''quantity must be > 0''))"
    using assms(3) by (auto simp: getInferenceCost_unknown getInferenceCost_bad_quantity)
  then have "fst (authorizeInference c st now u m quantity) =
          Inl (Error (if COSTS m = Undefined then ''Unknown mode'' else ''quantity must be > 0''))"
    using assms(2) by (simp add: authorizeInference_not_limited [OF assms(1)])
  then show ?thesis
    using authorizeInference_calls [OF assms(1)] by simp
qed

theorem validation_after_reads_witness:
  "fst (authorizeInference (ledger (JSBigInt 0) 0 0 False 5) newOracle 1000 ''0xabc''
          ''basic'' (Finite 0)) = Inl (Error ''quantity must be > 0'')"
proof -
  have lim: "\<not> fst (isRateLimited newOracle 1000 ''0xabc'')"
    by (simp add: isRateLimited_fst recent_def newOracle_def RATE_LIMIT_PER_MINUTE_def)
  have ini: "\<not> initialGrantCondition newOracle ''0xabc''
       (fst (getUserCredits (ledger (JSBigInt 0) 0 0 False 5) newOracle ''0xabc''))
       (fst (getUserSubscription (ledger (JSBigInt 0) 0 0 False 5) newOracle ''0xabc''))"
    by (simp add: initialGrantCondition_def getUserCredits_def ledger_def)
  have bad: "COSTS ''basic'' = Undefined \<or> \<not> isFinite (Finite 0) \<or> leZero (Finite 0)"
    by simp
  show ?thesis
    using validation_after_reads [OF lim ini bad] by (simp add: COSTS_def)
qed

text \<open>
  C6, as stated, fails. A subscriber within the cap asking for 5 \<open>basic\<close> inferences
  gets a decision whose \<open>cost\<close> is 0, while the cost of the request is 5; a new user on
  the initial-grant branch asking for 2 \<open>full\<close> inferences gets \<open>cost\<close> 0, while the cost
  of the request is 12.
\<close>

theorem cost_field_counterexample:
  "fst (authorizeInference (ledger (JSBigInt 1) 10 20 True 0) newOracle 1000 ''0xabc''
          ''basic'' (Finite 5)) =
     Inr \<lparr>allowed = True, method' = Subscription, reason = ''within_subscription_cap'',
          cost = Finite 0\<rparr>
   \<and> getInferenceCost ''basic'' (Finite 5) = Inr (Finite 5)
   \<and> fst (authorizeInference unreachable newOracle 1000 ''0xabc'' ''full'' (Finite 2)) =
     Inr \<lparr>allowed = True, method' = InitialGrant, reason = ''initial_50_credits'',
          cost = Finite 0\<rparr>
   \<and> getInferenceCost ''full'' (Finite 2) = Inr (Finite 12)"
  by (simp add: authorizeInference_def isRateLimited_def recent_def newOracle_def
      RATE_LIMIT_PER_MINUTE_def getUserSubscription_def getUserCredits_def ledger_def
      unreachable_def initialGrantCondition_def subscriptionObject_def getInferenceCost_def
      COSTS_def subscribedWithinCap_def isSubscribed_def withinCap_def isPriceAccuracyMode_def
      NumberOfBigInt_exact)

text \<open>
  C6, amended. In a decision settled on credits, and in the denial for insufficient
  balance and cap, the \<open>cost\<close> field is the unit cost of the mode times the quantity, as
  the program computes the product (the mode being one of the cost table and the quantity
  positive); for an integer quantity whose exact product is at most \<open>2 ^ 53\<close> it is that
  product. In every other decision (subscription, initial grant, rate limit) the \<open>cost\<close>
  field is 0.
\<close>

theorem cost_field:
  assumes "fst (authorizeInference c st now u m quantity) = Inr d"
  shows "if method' d = Credits \<or> reason d = ''insufficient_balance_and_cap''
         then \<exists>unit n. COSTS m = Num unit \<and> quantity = Finite n \<and> 0 < n \<and>
                cost d = times_js (Finite (of_int unit)) (Finite n) \<and>
                (\<forall>i. n = of_int i \<and> unit * i \<le> 2 ^ 53 \<longrightarrow>
                   cost d = Finite (of_int (unit * i)))
         else cost d = Finite 0"
proof -
  have exact: "\<exists>unit n. COSTS m = Num unit \<and> quantity = Finite n \<and> 0 < n \<and>
                cst = times_js (Finite (of_int unit)) (Finite n) \<and>
                (\<forall>i. n = of_int i \<and> unit * i \<le> 2 ^ 53 \<longrightarrow> cst = Finite (of_int (unit * i)))"
    if h: "getInferenceCost m quantity = Inr cst" "BigInt cst = Inr b" for cst b
  proof -
    obtain unit n where un: "COSTS m = Num unit" "quantity = Finite n" "0 < n"
      "cst = times_js (Finite (of_int unit)) (Finite n)"
      using getInferenceCost_Inr [OF h] by blast
    have "cst = Finite (of_int (unit * i))" if i: "n = of_int i" "unit * i \<le> 2 ^ 53" for i
    proof -
      have "0 < i" using un(3) i(1) by simp
      then have "0 < unit * i" using COSTS_Num_pos [OF un(1)] by simp
      then have "\<bar>unit * i\<bar> \<le> 2 ^ 53" using i(2) by simp
      then show ?thesis
        unfolding un(4) i(1) by (rule times_js_of_int)
    qed
    then show ?thesis using un by blast
  qed
  show ?thesis
  proof (cases "fst (isRateLimited st now u)")
    case True
    then show ?thesis
      using assms by (auto simp: authorizeInference_limited)
  next
    case False
    show ?thesis
      using assms exact
      by (auto simp: authorizeInference_not_limited [OF False] Let_def
          split: if_splits sum.splits)
  qed
qed

theorem cost_field_witness:
  "\<exists>unit n. COSTS ''tags'' = Num unit \<and> Finite 3 = Finite n \<and> 0 < n \<and>
      cost \<lparr>allowed = True, method' = Credits, reason = ''sufficient_credits'',
            cost = Finite 6\<rparr> = times_js (Finite (of_int unit)) (Finite n)"
proof -
  have "fst (authorizeInference (ledger (JSBigInt 0) 0 0 False 10) newOracle 1000 ''0xabc''
          ''tags'' (Finite 3)) =
     Inr \<lparr>allowed = True, method' = Credits, reason = ''sufficient_credits'', cost = Finite 6\<rparr>"
    by (simp add: authorizeInference_def isRateLimited_def recent_def newOracle_def
        RATE_LIMIT_PER_MINUTE_def getUserSubscription_def getUserCredits_def ledger_def
        initialGrantCondition_def subscriptionObject_def getInferenceCost_def COSTS_def
        subscribedWithinCap_def isSubscribed_def)
  from cost_field [OF this] show ?thesis
    by (simp del: times_js.simps) blast
qed

text \<open>
  C10. In every decision that \<open>authorizeInference\<close> returns, \<open>allowed\<close> is true exactly
  when the method is not \<open>deny\<close>.
\<close>

theorem decision_allowed_iff_not_deny:
  assumes "fst (authorizeInference c st now u m quantity) = Inr d"
  shows "allowed d \<longleftrightarrow> method' d \<noteq> Deny"
proof (cases "fst (isRateLimited st now u)")
  case True
  then show ?thesis
    using assms by (auto simp: authorizeInference_limited)
next
  case False
  then show ?thesis
    using assms
    by (auto simp: authorizeInference_not_limited Let_def split: if_splits sum.splits)
qed

theorem decision_allowed_iff_not_deny_witness:
  "fst (authorizeInference (ledger (JSBigInt 0) 0 0 False 5) newOracle 1000 ''0xabc''
          ''tags'' (Finite 3)) =
     Inr \<lparr>allowed = False, method' = Deny, reason = ''insufficient_balance_and_cap'',
          cost = Finite 6\<rparr>
   \<and> (allowed \<lparr>allowed = False, method' = Deny, reason = ''insufficient_balance_and_cap'',
            cost = Finite 6\<rparr> \<longleftrightarrow>
        method' \<lparr>allowed = False, method' = Deny, reason = ''insufficient_balance_and_cap'',
           cost = Finite 6\<rparr> \<noteq> Deny)"
proof -
  have run: "fst (authorizeInference (ledger (JSBigInt 0) 0 0 False 5) newOracle 1000 ''0xabc''
          ''tags'' (Finite 3)) =
     Inr \<lparr>allowed = False, method' = Deny, reason = ''insufficient_balance_and_cap'',
          cost = Finite 6\<rparr>"
    by (simp add: authorizeInference_def isRateLimited_def recent_def newOracle_def
        RATE_LIMIT_PER_MINUTE_def getUserSubscription_def getUserCredits_def ledger_def
        initialGrantCondition_def subscriptionObject_def getInferenceCost_def COSTS_def
        subscribedWithinCap_def isSubscribed_def)
  show ?thesis
    using run decision_allowed_iff_not_deny [OF run] by blast
qed

section \<open>Claims about the contract reads\<close>

text \<open>
  C7, at the input where the code departs from it. The subscription read fails and is
  degraded to \<open>null\<close>, the balance read returns 5, and the user asks for 1.5 \<open>basic\<close>
  inferences: the call does not return a decision, it throws the \<open>RangeError\<close> of
  \<open>BigInt(cost)\<close>.
\<close>

theorem read_failure_range_error:
  "fst (getUserSubscription (subscriptionDown 5) newOracle ''0xabc'') = None
   \<and> fst (authorizeInference (subscriptionDown 5) newOracle 1000 ''0xabc''
          ''basic'' (Finite (3 / 2))) = Inl RangeError"
  by (simp add: authorizeInference_def isRateLimited_def recent_def newOracle_def
      RATE_LIMIT_PER_MINUTE_def getUserSubscription_def getUserCredits_def subscriptionDown_def
      initialGrantCondition_def getInferenceCost_def COSTS_def
      subscribedWithinCap_def toDouble_three_halves BigInt_three_halves
      del: BigInt.simps)

theorem read_failure_range_error_witness:
  "\<not> (\<exists>d. fst (authorizeInference (subscriptionDown 5) newOracle 1000 ''0xabc''
          ''basic'' (Finite (3 / 2))) = Inr d)"
  using read_failure_range_error by simp

section \<open>Claims about the cost table and the credit calculator\<close>

text \<open>
  C8, at the input where the code departs from it. \<open>toString\<close> is not a mode, yet the
  lookup \<open>COSTS['toString']\<close> finds the function inherited from \<open>Object.prototype\<close>,
  which is truthy: no \<open>Unknown mode\<close> error is raised and the cost returned is \<open>NaN\<close>.
\<close>

theorem inherited_mode_cost: "getInferenceCost ''toString'' (Finite 1) = Inr NaN"
  by (simp add: getInferenceCost_def COSTS_def objectPrototypeKeys_def)

theorem inherited_mode_cost_witness:
  "getInferenceCost ''toString'' (Finite 1) \<noteq> Inl (Error ''Unknown mode'')"
  using inherited_mode_cost by simp



end
